theory Spec2Isabelle
  imports Main "HOL-Library.Word"
begin

section \<open>JavaScript values used by \<^verbatim>\<open>CSS2/script.js\<close>\<close>

text \<open>
  A JavaScript string is a sequence of 16-bit UTF-16 code units; nothing forces the
  surrogates in it to be paired. String literals of the script are written with \<open>js\<close>;
  the two non-ASCII letters of the Portuguese texts (U+00E3 and U+00ED) are given by
  their code units.
\<close>

type_synonym jsstring = "16 word list"

definition js :: "string \<Rightarrow> jsstring" where
  "js s = map of_char s"

datatype js_error = TypeError | URIError | NetworkError

text \<open>\<^verbatim>\<open>String.prototype.startsWith\<close> and \<^verbatim>\<open>substring(1)\<close>.\<close>

definition startsWith :: "jsstring \<Rightarrow> jsstring \<Rightarrow> bool" where
  "startsWith s p = (take (length p) s = p)"

definition substring1 :: "jsstring \<Rightarrow> jsstring" where
  "substring1 s = drop 1 s"

text \<open>
  The decimal text of a non-negative integer, as a template literal prints the
  \<^verbatim>\<open>unsigned long\<close> attributes \<^verbatim>\<open>width\<close> and \<^verbatim>\<open>height\<close>.
\<close>

fun toString :: "nat \<Rightarrow> jsstring" where
  "toString n =
     (if n < 10 then [of_nat (48 + n)]
      else toString (n div 10) @ [of_nat (48 + n mod 10)])"

declare toString.simps [simp del]

text \<open>\<^verbatim>\<open>a || b\<close> on numbers: zero is falsy.\<close>

definition orElse :: "nat \<Rightarrow> nat \<Rightarrow> nat" where
  "orElse a b = (if a = 0 then b else a)"

subsection \<open>\<^verbatim>\<open>encodeURIComponent\<close>\<close>

text \<open>
  ECMAScript's \<^verbatim>\<open>Encode(string, uriUnreserved)\<close>: an unreserved code unit is copied, every
  other code point is written as the percent-escaped octets of its UTF-8 form, and an
  unpaired surrogate raises \<^verbatim>\<open>URIError\<close>.
\<close>

definition uriUnreserved :: "16 word \<Rightarrow> bool" where
  "uriUnreserved c =
     ((0x41 \<le> c \<and> c \<le> 0x5A) \<or> (0x61 \<le> c \<and> c \<le> 0x7A) \<or> (0x30 \<le> c \<and> c \<le> 0x39)
      \<or> c \<in> set [0x2D, 0x5F, 0x2E, 0x21, 0x7E, 0x2A, 0x27, 0x28, 0x29])"

definition isLeadingSurrogate :: "16 word \<Rightarrow> bool" where
  "isLeadingSurrogate c = (0xD800 \<le> c \<and> c \<le> 0xDBFF)"

definition isTrailingSurrogate :: "16 word \<Rightarrow> bool" where
  "isTrailingSurrogate c = (0xDC00 \<le> c \<and> c \<le> 0xDFFF)"

definition surrogatePair :: "16 word \<Rightarrow> 16 word \<Rightarrow> nat" where
  "surrogatePair lead trail =
     (unat lead - 0xD800) * 0x400 + (unat trail - 0xDC00) + 0x10000"

definition utf8Octets :: "nat \<Rightarrow> nat list" where
  "utf8Octets cp =
     (if cp < 0x80 then [cp]
      else if cp < 0x800 then [0xC0 + cp div 64, 0x80 + cp mod 64]
      else if cp < 0x10000 then
        [0xE0 + cp div 4096, 0x80 + (cp div 64) mod 64, 0x80 + cp mod 64]
      else
        [0xF0 + cp div 262144, 0x80 + (cp div 4096) mod 64,
         0x80 + (cp div 64) mod 64, 0x80 + cp mod 64])"

definition hexDigit :: "nat \<Rightarrow> 16 word" where
  "hexDigit d = (if d < 10 then of_nat (48 + d) else of_nat (55 + d))"

definition percentEscape :: "nat \<Rightarrow> jsstring" where
  "percentEscape octet = [0x25, hexDigit (octet div 16), hexDigit (octet mod 16)]"

definition escapeCodePoint :: "nat \<Rightarrow> jsstring" where
  "escapeCodePoint cp = concat (map percentEscape (utf8Octets cp))"

definition andThen :: "js_error + jsstring \<Rightarrow> (jsstring \<Rightarrow> jsstring) \<Rightarrow> js_error + jsstring" where
  "andThen r f = (case r of Inl e \<Rightarrow> Inl e | Inr s \<Rightarrow> Inr (f s))"

fun encodeURIComponent :: "jsstring \<Rightarrow> js_error + jsstring" where
  "encodeURIComponent [] = Inr []"
| "encodeURIComponent [c] =
     (if uriUnreserved c then Inr [c]
      else if isLeadingSurrogate c \<or> isTrailingSurrogate c then Inl URIError
      else Inr (escapeCodePoint (unat c)))"
| "encodeURIComponent (c # d # rest) =
     (if uriUnreserved c then andThen (encodeURIComponent (d # rest)) ((#) c)
      else if isTrailingSurrogate c then Inl URIError
      else if isLeadingSurrogate c then
        (if isTrailingSurrogate d
         then andThen (encodeURIComponent rest) ((@) (escapeCodePoint (surrogatePair c d)))
         else Inl URIError)
      else andThen (encodeURIComponent (d # rest)) ((@) (escapeCodePoint (unat c))))"

text \<open>\<^verbatim>\<open>String.prototype.isWellFormed\<close>: no unpaired surrogate.\<close>

fun isWellFormed :: "jsstring \<Rightarrow> bool" where
  "isWellFormed [] = True"
| "isWellFormed [c] = (\<not> isLeadingSurrogate c \<and> \<not> isTrailingSurrogate c)"
| "isWellFormed (c # d # rest) =
     (if isTrailingSurrogate c then False
      else if isLeadingSurrogate c then isTrailingSurrogate d \<and> isWellFormed rest
      else isWellFormed (d # rest))"

definition notSurrogate :: "16 word \<Rightarrow> bool" where
  "notSurrogate c = (\<not> isLeadingSurrogate c \<and> \<not> isTrailingSurrogate c)"

section \<open>Image fallback\<close>

text \<open>
  What the script reads and writes of an \<^verbatim>\<open>img\<close> element. \<open>lazy\<close> says that the element
  matches \<^verbatim>\<open>img[loading="lazy"]\<close>. The listeners the script registers are anonymous
  functions, so every registration adds one: the element carries their number.
  The browser's own later reaction to a new \<^verbatim>\<open>src\<close> (a fetch, and events that follow it)
  is not part of a handler's run.
\<close>

record img =
  lazy :: bool
  complete :: bool
  naturalWidth :: nat
  naturalHeight :: nat
  width :: nat
  height :: nat
  classList :: "jsstring list"
  alt :: jsstring
  src :: jsstring
  loadListeners :: nat
  errorListeners :: nat

text \<open>\<^verbatim>\<open>DOMTokenList\<close>: an ordered set of tokens.\<close>

definition contains :: "jsstring list \<Rightarrow> jsstring \<Rightarrow> bool" where
  "contains tokens t = (t \<in> set tokens)"

definition add :: "jsstring list \<Rightarrow> jsstring \<Rightarrow> jsstring list" where
  "add tokens t = (if t \<in> set tokens then tokens else tokens @ [t])"

definition remove :: "jsstring list \<Rightarrow> jsstring \<Rightarrow> jsstring list" where
  "remove tokens t = filter (\<lambda>x. x \<noteq> t) tokens"

definition img_loading :: jsstring where
  "img_loading = js ''img-loading''"

definition img_missing :: jsstring where
  "img_missing = js ''img-missing''"

text \<open>
  The marker put before the alt text: \<^verbatim>\<open>Imagem n.o dispon.vel: \<close> with U+00E3 and U+00ED
  at the two dots.
\<close>

definition notAvailable :: jsstring where
  "notAvailable = js ''Imagem n'' @ [0xE3] @ js ''o dispon'' @ [0xED] @ js ''vel: ''"

text \<open>The template literal of the placeholder, split at its three holes.\<close>

definition svgOpen :: jsstring where
  \<open>svgOpen = js ''<svg xmlns="http://www.w3.org/2000/svg" width="''\<close>

definition svgHeight :: jsstring where
  \<open>svgHeight = js ''" height="''\<close>

definition svgBody :: jsstring where
  \<open>svgBody =
     js ''" viewBox="0 0 400 300">\<newline>''
     @ js ''          <rect width="100%" height="100%" fill="#222"/>\<newline>''
     @ js ''          <text x="50%" y="50%" fill="#ff6b6b" font-family="Arial" font-size="16" text-anchor="middle" dy=".3em">Imagem n''
     @ [0xE3] @ js ''o encontrada</text>\<newline>''
     @ js ''          <text x="50%" y="60%" fill="#ffb3b3" font-family="Arial" font-size="12" text-anchor="middle">''\<close>

definition svgClose :: jsstring where
  \<open>svgClose = js ''</text>\<newline>        </svg>''\<close>

definition placeholderSvg :: "nat \<Rightarrow> nat \<Rightarrow> jsstring \<Rightarrow> jsstring" where
  "placeholderSvg w h description =
     svgOpen @ toString w @ svgHeight @ toString h @ svgBody @ description @ svgClose"

definition dataUriPrefix :: jsstring where
  "dataUriPrefix = js ''data:image/svg+xml;charset=utf-8,''"

text \<open>The \<^verbatim>\<open>load\<close> listener of \<^verbatim>\<open>initializeImageHandling\<close>.\<close>

definition onLoad :: "img \<Rightarrow> img" where
  "onLoad this = this\<lparr>classList := remove (classList this) img_loading\<rparr>"

text \<open>
  The \<^verbatim>\<open>error\<close> listener. \<open>placeholder\<close> is the right-hand side of its assignment to
  \<^verbatim>\<open>src\<close>, evaluated after \<^verbatim>\<open>alt\<close> was rewritten. The second component of the result is
  the exception the listener ends with, if any: \<^verbatim>\<open>encodeURIComponent\<close> raises before
  \<^verbatim>\<open>src\<close> is assigned.
\<close>

definition placeholder :: "img \<Rightarrow> js_error + jsstring" where
  "placeholder this =
     andThen
       (encodeURIComponent
          (placeholderSvg (orElse (width this) 400) (orElse (height this) 300) (alt this)))
       ((@) dataUriPrefix)"

definition onError :: "img \<Rightarrow> img \<times> js_error option" where
  "onError this =
     (let this1 = this\<lparr>classList := remove (classList this) img_loading\<rparr>;
          this2 = this1\<lparr>classList := add (classList this1) img_missing\<rparr>;
          this3 = this2\<lparr>alt := notAvailable @ alt this2\<rparr>
      in case placeholder this3 of
           Inl e \<Rightarrow> (this3, Some e)
         | Inr uri \<Rightarrow> (this3\<lparr>src := uri\<rparr>, None))"

text \<open>
  Dispatching an event runs every registered listener in turn; an exception of a
  listener is reported by the browser and neither stops the others nor reaches the
  caller of \<^verbatim>\<open>dispatchEvent\<close>.
\<close>

definition dispatchLoad :: "img \<Rightarrow> img" where
  "dispatchLoad e = (onLoad ^^ loadListeners e) e"

definition dispatchError :: "img \<Rightarrow> img" where
  "dispatchError e = ((\<lambda>x. fst (onError x)) ^^ errorListeners e) e"

text \<open>
  \<^verbatim>\<open>checkForBrokenImages\<close>: the loop over \<^verbatim>\<open>document.querySelectorAll('img')\<close>. The
  function has no \<^verbatim>\<open>await\<close>, so it runs to its end at once. Its result is the document
  afterwards, the positions on which an \<^verbatim>\<open>error\<close> event was dispatched and the positions
  for which a one-second timer was set.
\<close>

record scan =
  images :: "img list"
  dispatched :: "nat list"
  timers :: "nat list"

fun scanFrom :: "nat \<Rightarrow> img list \<Rightarrow> scan" where
  "scanFrom i [] = \<lparr>images = [], dispatched = [], timers = []\<rparr>"
| "scanFrom i (e # rest) =
     (let r = scanFrom (Suc i) rest in
      if contains (classList e) img_missing then r\<lparr>images := e # images r\<rparr>
      else if complete e \<and> (naturalWidth e = 0 \<or> naturalHeight e = 0)
      then r\<lparr>images := dispatchError e # images r, dispatched := i # dispatched r\<rparr>
      else if \<not> complete e then r\<lparr>images := e # images r, timers := i # timers r\<rparr>
      else r\<lparr>images := e # images r\<rparr>)"

definition checkForBrokenImages :: "img list \<Rightarrow> scan" where
  "checkForBrokenImages doc = scanFrom 0 doc"

text \<open>The callback of the timer set for an image that was still loading.\<close>

definition onTimeout :: "img \<Rightarrow> img" where
  "onTimeout e =
     (if naturalWidth e = 0 \<or> naturalHeight e = 0 then dispatchError e else e)"

text \<open>
  \<^verbatim>\<open>initializeImageHandling\<close>: the \<^verbatim>\<open>forEach\<close> over \<^verbatim>\<open>img[loading="lazy"]\<close> touches each
  matching element on its own, then the scan runs over every image.
\<close>

definition register :: "img \<Rightarrow> img" where
  "register e =
     (if lazy e then
        (let e1 = (if \<not> complete e then e\<lparr>classList := add (classList e) img_loading\<rparr> else e)
         in e1\<lparr>loadListeners := Suc (loadListeners e1),
                errorListeners := Suc (errorListeners e1)\<rparr>)
      else e)"

definition initializeImageHandling :: "img list \<Rightarrow> scan" where
  "initializeImageHandling doc = checkForBrokenImages (map register doc)"

text \<open>
  Everything of the script that can touch an image: the two events reaching the
  registered listeners, the two exported functions, and a timer running out.
\<close>

datatype operation =
  LoadEvent nat
| ErrorEvent nat
| TimerFires nat
| InitializeImageHandling
| CheckForBrokenImages

fun step :: "img list \<Rightarrow> operation \<Rightarrow> img list" where
  "step doc (LoadEvent k) = (if k < length doc then doc[k := dispatchLoad (doc ! k)] else doc)"
| "step doc (ErrorEvent k) = (if k < length doc then doc[k := dispatchError (doc ! k)] else doc)"
| "step doc (TimerFires k) = (if k < length doc then doc[k := onTimeout (doc ! k)] else doc)"
| "step doc InitializeImageHandling = images (initializeImageHandling doc)"
| "step doc CheckForBrokenImages = images (checkForBrokenImages doc)"

definition run :: "img list \<Rightarrow> operation list \<Rightarrow> img list" where
  "run doc ops = foldl step doc ops"

section \<open>Smooth scrolling to anchors\<close>

text \<open>
  What the click listener reads and writes of the page: the elements in tree order with
  their \<^verbatim>\<open>id\<close> (empty when there is none), classes, layout offsets and \<^verbatim>\<open>tabindex\<close>
  attribute, whether each is being rendered, disabled or inert, the element that has
  keyboard focus, and the calls of \<^verbatim>\<open>window.scrollTo\<close> made so far (the newest last). The
  offsets are integers, so the subtraction of the listener is exact.
\<close>

record element =
  ident :: jsstring
  classNames :: "jsstring list"
  offsetTop :: int
  offsetHeight :: int
  tabindex :: "jsstring option"
  beingRendered :: bool
  disabled :: bool
  inert :: bool

datatype behavior = Smooth | Instant

record page =
  elements :: "element list"
  activeElement :: "nat option"
  scrollCalls :: "(int \<times> behavior) list"

datatype completion = Normal | Throw js_error

text \<open>The first element in tree order that satisfies a test, with its position.\<close>

fun firstFrom :: "nat \<Rightarrow> (element \<Rightarrow> bool) \<Rightarrow> element list \<Rightarrow> (nat \<times> element) option" where
  "firstFrom i p [] = None"
| "firstFrom i p (e # rest) = (if p e then Some (i, e) else firstFrom (Suc i) p rest)"

definition getElementById :: "page \<Rightarrow> jsstring \<Rightarrow> (nat \<times> element) option" where
  "getElementById pg name =
     (if name = [] then None else firstFrom 0 (\<lambda>e. ident e = name) (elements pg))"

text \<open>\<^verbatim>\<open>document.querySelector('.menu')\<close>.\<close>

definition querySelectorMenu :: "page \<Rightarrow> (nat \<times> element) option" where
  "querySelectorMenu pg = firstFrom 0 (\<lambda>e. contains (classNames e) (js ''menu'')) (elements pg)"

definition scrollTo :: "int \<Rightarrow> behavior \<Rightarrow> page \<Rightarrow> page" where
  "scrollTo position b pg = pg\<lparr>scrollCalls := scrollCalls pg @ [(position, b)]\<rparr>"

definition setTabindex :: "nat \<Rightarrow> jsstring \<Rightarrow> page \<Rightarrow> page" where
  "setTabindex k v pg =
     pg\<lparr>elements := (elements pg)[k := (elements pg ! k)\<lparr>tabindex := Some v\<rparr>]\<rparr>"

text \<open>
  \<^verbatim>\<open>focus()\<close> moves the focus only to a focusable area: an element with a \<^verbatim>\<open>tabindex\<close>
  attribute (the listener sets it just before the call; elements that are focusable
  without one are not told apart here) that is being rendered and is neither disabled nor
  inert. On any other element the call does nothing.
\<close>

definition focusable :: "element \<Rightarrow> bool" where
  "focusable e = (tabindex e \<noteq> None \<and> beingRendered e \<and> \<not> disabled e \<and> \<not> inert e)"

definition focus :: "nat \<Rightarrow> page \<Rightarrow> page" where
  "focus k pg = (if focusable (elements pg ! k) then pg\<lparr>activeElement := Some k\<rparr> else pg)"

text \<open>
  The click listener of \<^verbatim>\<open>initializeSmoothScroll\<close>, run on an anchor whose
  \<^verbatim>\<open>getAttribute('href')\<close> gives \<open>href\<close> (\<open>None\<close> for \<^verbatim>\<open>null\<close>). It returns the page
  afterwards, whether \<^verbatim>\<open>preventDefault\<close> was called, and how the listener ended.
\<close>

definition onClick :: "jsstring option \<Rightarrow> page \<Rightarrow> page \<times> bool \<times> completion" where
  "onClick attribute pg =
     (case attribute of
        None \<Rightarrow> (pg, False, Throw TypeError)
      | Some href \<Rightarrow>
          if href \<noteq> js ''#'' \<and> startsWith href (js ''#'') then
            (case getElementById pg (substring1 href) of
               None \<Rightarrow> (pg, True, Normal)
             | Some (t, targetElement) \<Rightarrow>
                 (case querySelectorMenu pg of
                    None \<Rightarrow> (pg, True, Throw TypeError)
                  | Some (m, menu) \<Rightarrow>
                      (let headerHeight = offsetHeight menu;
                           targetPosition = offsetTop targetElement - headerHeight - 20;
                           pg1 = scrollTo targetPosition Smooth pg;
                           pg2 = setTabindex t (js ''-1'') pg1;
                           pg3 = focus t pg2
                       in (pg3, True, Normal))))
          else (pg, False, Normal))"

section \<open>Focus management\<close>

text \<open>
  The inline style of an element is its declaration block: the longhand properties it
  declares, each with its value. A value is kept as the text that was assigned; the order
  of the declarations and their priority are left out, since the listeners neither read
  nor set them apart.
\<close>

type_synonym declarations = "jsstring \<rightharpoonup> jsstring"

text \<open>
  \<^verbatim>\<open>outline\<close> is a shorthand for \<^verbatim>\<open>outline-width\<close>, \<^verbatim>\<open>outline-style\<close> and
  \<^verbatim>\<open>outline-color\<close>: assigning \<^verbatim>\<open>style.outline\<close> a value declares the three longhands, and
  assigning it the empty string removes them. \<^verbatim>\<open>outline-offset\<close> is a property of its own,
  outside the shorthand.
\<close>

definition setOutline :: "jsstring \<Rightarrow> jsstring \<Rightarrow> jsstring \<Rightarrow> declarations \<Rightarrow> declarations" where
  "setOutline w s c st =
     st(js ''outline-width'' \<mapsto> w, js ''outline-style'' \<mapsto> s, js ''outline-color'' \<mapsto> c)"

definition removeOutline :: "declarations \<Rightarrow> declarations" where
  "removeOutline st =
     st(js ''outline-width'' := None, js ''outline-style'' := None, js ''outline-color'' := None)"

definition setOutlineOffset :: "jsstring \<Rightarrow> declarations \<Rightarrow> declarations" where
  "setOutlineOffset v st = st(js ''outline-offset'' \<mapsto> v)"

text \<open>
  \<open>isCard\<close>: the element matches \<^verbatim>\<open>.card-mini\<close>; \<open>isButton\<close>: it matches
  \<^verbatim>\<open>.botao, .menu a\<close>.
\<close>

record control =
  isCard :: bool
  isButton :: bool
  tabIndex :: "jsstring option"
  style :: declarations
  keydownListeners :: nat
  focusListeners :: nat
  blurListeners :: nat

text \<open>
  The \<^verbatim>\<open>focus\<close> listener assigns \<^verbatim>\<open>'2px solid #e50914'\<close> to \<^verbatim>\<open>style.outline\<close> and \<^verbatim>\<open>'2px'\<close> to
  \<^verbatim>\<open>style.outlineOffset\<close>; the \<^verbatim>\<open>blur\<close> listener assigns \<^verbatim>\<open>''\<close> to \<^verbatim>\<open>style.outline\<close>.
\<close>

definition onFocus :: "control \<Rightarrow> control" where
  "onFocus this =
     (let this1 = this\<lparr>style := setOutline (js ''2px'') (js ''solid'') (js ''#e50914'') (style this)\<rparr>
      in this1\<lparr>style := setOutlineOffset (js ''2px'') (style this1)\<rparr>)"

definition onBlur :: "control \<Rightarrow> control" where
  "onBlur this = this\<lparr>style := removeOutline (style this)\<rparr>"

definition dispatchFocus :: "control \<Rightarrow> control" where
  "dispatchFocus c = (onFocus ^^ focusListeners c) c"

definition dispatchBlur :: "control \<Rightarrow> control" where
  "dispatchBlur c = (onBlur ^^ blurListeners c) c"

text \<open>
  The \<^verbatim>\<open>keydown\<close> listener of a card: Enter or Space prevents the default action and
  clicks the card. The result says whether both happened.
\<close>

definition onKeydown :: "jsstring \<Rightarrow> bool" where
  "onKeydown key = (key = js ''Enter'' \<or> key = js '' '')"

definition initializeFocusManagement :: "control list \<Rightarrow> control list" where
  "initializeFocusManagement doc =
     map (\<lambda>c.
       (let c1 = (if isCard c
                  then c\<lparr>tabIndex := Some (js ''0''), keydownListeners := Suc (keydownListeners c)\<rparr>
                  else c)
        in if isButton c1
           then c1\<lparr>focusListeners := Suc (focusListeners c1),
                   blurListeners := Suc (blurListeners c1)\<rparr>
           else c1)) doc"

section \<open>The image existence probe\<close>

text \<open>
  How \<^verbatim>\<open>fetch(url, { method: 'HEAD' })\<close> ends is given by the network: a response, an
  exception (a rejected promise or a throw of the call itself), or never. The \<^verbatim>\<open>ok\<close>
  attribute of a response is true for a status from 200 to 299.
\<close>

record response =
  status :: nat

definition ok :: "response \<Rightarrow> bool" where
  "ok r = (200 \<le> status r \<and> status r \<le> 299)"

datatype fetched = Responds response | Fails js_error | Pending

datatype 'a promise = Fulfilled 'a | Rejected js_error | Unsettled

text \<open>
  \<^verbatim>\<open>checkImageExists\<close>: the \<^verbatim>\<open>await\<close> inside \<^verbatim>\<open>try\<close> hands a failure of the request to
  the \<^verbatim>\<open>catch\<close> block.
\<close>

definition checkImageExists :: "(jsstring \<Rightarrow> fetched) \<Rightarrow> jsstring \<Rightarrow> bool promise" where
  "checkImageExists fetch url =
     (case fetch url of
        Responds r \<Rightarrow> Fulfilled (ok r)
      | Fails e \<Rightarrow> Fulfilled False
      | Pending \<Rightarrow> Unsettled)"

section \<open>Text inside the placeholder markup\<close>

text \<open>
  XML 1.0, section 2.4: an ampersand stands in character data only as the start of a
  reference, so the code unit after it is \<^verbatim>\<open>#\<close> or starts a name. \<open>nameStart\<close> holds of
  every code unit that can start a name (and of a few more above U+00BF).
  \<open>strayAmpersand\<close> finds an ampersand followed by anything else, or by nothing; a document
  free of comments, processing instructions and CDATA sections that has one is not
  well-formed.
\<close>

definition nameStart :: "16 word \<Rightarrow> bool" where
  "nameStart c =
     ((0x41 \<le> c \<and> c \<le> 0x5A) \<or> (0x61 \<le> c \<and> c \<le> 0x7A) \<or> c = 0x3A \<or> c = 0x5F \<or> 0xC0 \<le> c)"

fun strayAmpersand :: "jsstring \<Rightarrow> bool" where
  "strayAmpersand [] = False"
| "strayAmpersand [c] = (c = 0x26)"
| "strayAmpersand (c # d # rest) =
     ((c = 0x26 \<and> \<not> (nameStart d \<or> d = 0x23)) \<or> strayAmpersand (d # rest))"

section \<open>Example elements\<close>

text \<open>
  Concrete images for evaluating the functions: a deferred-loading image that failed to
  load, with the listeners of one run of \<^verbatim>\<open>initializeImageHandling\<close>; an eager image that
  failed to load; the first with an alt text cut in the middle of a surrogate pair, with
  an alt text holding an ampersand, and already marked as missing.
\<close>

definition brokenPoster :: img where
  "brokenPoster =
     \<lparr>lazy = True, complete = True, naturalWidth = 0, naturalHeight = 0, width = 0, height = 0,
      classList = [js ''poster''], alt = js ''Cartaz'', src = js ''img/cartaz.jpg'',
      loadListeners = 1, errorListeners = 1\<rparr>"

definition brokenLogo :: img where
  "brokenLogo =
     \<lparr>lazy = False, complete = True, naturalWidth = 0, naturalHeight = 0, width = 120, height = 0,
      classList = [], alt = js ''Logo'', src = js ''img/logo.png'',
      loadListeners = 0, errorListeners = 0\<rparr>"

definition halfEmoji :: img where
  "halfEmoji = brokenPoster\<lparr>alt := [0xD83C]\<rparr>"

definition tomAndJerry :: img where
  "tomAndJerry = brokenPoster\<lparr>alt := js ''Tom & Jerry''\<rparr>"

definition missingPoster :: img where
  "missingPoster = brokenPoster\<lparr>classList := [js ''poster'', img_missing]\<rparr>"

text \<open>
  A page with a fixed header and one section, and the same page without the header; a
  network that serves one address, answers 404 for another and fails otherwise; a button
  with one inline declaration of its own.
\<close>

definition header :: element where
  "header = \<lparr>ident = [], classNames = [js ''menu''], offsetTop = 0, offsetHeight = 64,
              tabindex = None, beingRendered = True, disabled = False, inert = False\<rparr>"

definition filmes :: element where
  "filmes = \<lparr>ident = js ''filmes'', classNames = [js ''secao''], offsetTop = 900,
              offsetHeight = 480, tabindex = None, beingRendered = True, disabled = False,
              inert = False\<rparr>"

definition catalogPage :: page where
  "catalogPage = \<lparr>elements = [header, filmes], activeElement = None, scrollCalls = []\<rparr>"

definition pageWithoutMenu :: page where
  "pageWithoutMenu = \<lparr>elements = [filmes], activeElement = None, scrollCalls = []\<rparr>"

text \<open>
  A page where a banner comes before the header and a footer repeats both the \<^verbatim>\<open>id\<close> of
  the section and the class of the header; a page whose section is not rendered, with
  the focus on the header.
\<close>

definition banner :: element where
  "banner = \<lparr>ident = js ''topo'', classNames = [js ''faixa''], offsetTop = 0, offsetHeight = 40,
              tabindex = None, beingRendered = True, disabled = False, inert = False\<rparr>"

definition footer :: element where
  "footer = \<lparr>ident = js ''filmes'', classNames = [js ''menu''], offsetTop = 2400,
              offsetHeight = 120, tabindex = None, beingRendered = True, disabled = False,
              inert = False\<rparr>"

definition crowdedPage :: page where
  "crowdedPage =
     \<lparr>elements = [banner, header\<lparr>offsetTop := 40\<rparr>, filmes, footer],
      activeElement = None, scrollCalls = []\<rparr>"

definition hiddenPage :: page where
  "hiddenPage =
     \<lparr>elements = [header, filmes\<lparr>beingRendered := False, offsetTop := 0, offsetHeight := 0\<rparr>],
      activeElement = Some 0, scrollCalls = []\<rparr>"

definition network :: "jsstring \<Rightarrow> fetched" where
  "network url =
     (if url = js ''img/cartaz.jpg'' then Responds \<lparr>status = 200\<rparr>
      else if url = js ''img/logo.png'' then Responds \<lparr>status = 404\<rparr>
      else Fails NetworkError)"

definition plainButton :: control where
  "plainButton =
     \<lparr>isCard = False, isButton = True, tabIndex = None,
      style = [js ''color'' \<mapsto> js ''#fff''],
      keydownListeners = 0, focusListeners = 0, blurListeners = 0\<rparr>"

section \<open>Properties of the string functions\<close>

lemma uriUnreserved_notSurrogate: "uriUnreserved c \<Longrightarrow> \<not> isLeadingSurrogate c \<and> \<not> isTrailingSurrogate c"
  unfolding uriUnreserved_def isLeadingSurrogate_def isTrailingSurrogate_def
  by (auto simp: word_le_nat_alt)

lemma lead_not_trail: "isLeadingSurrogate c \<Longrightarrow> \<not> isTrailingSurrogate c"
  unfolding isLeadingSurrogate_def isTrailingSurrogate_def
  by (auto simp: word_le_nat_alt)

lemma andThen_Inr: "(\<exists>r. andThen x f = Inr r) = (\<exists>r. x = Inr r)"
  by (cases x) (simp_all add: andThen_def)

lemma encode_ok_iff: "(\<exists>r. encodeURIComponent s = Inr r) = isWellFormed s"
proof (induction s rule: encodeURIComponent.induct)
  case 1
  show ?case by simp
next
  case (2 c)
  show ?case using uriUnreserved_notSurrogate [of c] by auto
next
  case (3 c d rest)
  show ?case
  proof (cases "uriUnreserved c")
    case True
    with 3 uriUnreserved_notSurrogate [of c] show ?thesis by (simp add: andThen_Inr)
  next
    case False
    with 3 show ?thesis by (simp add: andThen_Inr)
  qed
qed

lemma encode_error: "encodeURIComponent s = Inl e \<Longrightarrow> e = URIError"
proof (induction s arbitrary: e rule: encodeURIComponent.induct)
  case 1
  then show ?case by simp
next
  case (2 c)
  then show ?case by (simp split: if_splits)
next
  case (3 c d rest)
  then show ?case by (auto simp: andThen_def split: if_splits sum.splits)
qed

lemma isWellFormed_Cons: "notSurrogate c \<Longrightarrow> isWellFormed (c # s) = isWellFormed s"
  by (cases s) (simp_all add: notSurrogate_def)

lemma isWellFormed_prepend: "list_all notSurrogate p \<Longrightarrow> isWellFormed (p @ s) = isWellFormed s"
  by (induction p) (simp_all add: isWellFormed_Cons)

lemma isWellFormed_notSurrogate: "list_all notSurrogate p \<Longrightarrow> isWellFormed p"
  using isWellFormed_prepend [of p "[]"] by simp

lemma isWellFormed_append: "list_all notSurrogate p \<Longrightarrow> isWellFormed (s @ p) = isWellFormed s"
proof (induction s rule: isWellFormed.induct)
  case 1
  then show ?case by (simp add: isWellFormed_notSurrogate)
next
  case (2 c)
  show ?case
  proof (cases p)
    case Nil
    then show ?thesis by simp
  next
    case (Cons a q)
    with 2 have "notSurrogate a" and "list_all notSurrogate q" by simp_all
    then have "isWellFormed (a # q)" and "\<not> isTrailingSurrogate a"
      using isWellFormed_notSurrogate [of "a # q"] by (simp_all add: notSurrogate_def)
    with Cons show ?thesis by simp
  qed
next
  case (3 c d rest)
  then show ?case by simp
qed

lemma unat_digit: "d < 10 \<Longrightarrow> unat (of_nat (48 + d) :: 16 word) = 48 + d"
  by (simp only: unat_of_nat) simp

lemma notSurrogate_digit: "d < 10 \<Longrightarrow> notSurrogate (of_nat (48 + d))"
  unfolding notSurrogate_def isLeadingSurrogate_def isTrailingSurrogate_def word_le_nat_alt
  by (simp only: unat_digit) simp

lemma notSurrogate_toString: "list_all notSurrogate (toString n)"
proof (induction n rule: toString.induct)
  case (1 n)
  show ?case
  proof (cases "n < 10")
    case True
    then show ?thesis by (simp add: toString.simps [of n] notSurrogate_digit del: of_nat_add)
  next
    case False
    with 1 show ?thesis by (simp add: toString.simps [of n] notSurrogate_digit del: of_nat_add)
  qed
qed

lemma notSurrogate_svgOpen: "list_all notSurrogate svgOpen"
  by (simp add: svgOpen_def js_def notSurrogate_def isLeadingSurrogate_def isTrailingSurrogate_def)

lemma notSurrogate_svgHeight: "list_all notSurrogate svgHeight"
  by (simp add: svgHeight_def js_def notSurrogate_def isLeadingSurrogate_def isTrailingSurrogate_def)

lemma notSurrogate_svgBody: "list_all notSurrogate svgBody"
  by (simp add: svgBody_def js_def notSurrogate_def isLeadingSurrogate_def isTrailingSurrogate_def)

lemma notSurrogate_svgClose: "list_all notSurrogate svgClose"
  by (simp add: svgClose_def js_def notSurrogate_def isLeadingSurrogate_def isTrailingSurrogate_def)

lemma notSurrogate_notAvailable: "list_all notSurrogate notAvailable"
  by (simp add: notAvailable_def js_def notSurrogate_def isLeadingSurrogate_def isTrailingSurrogate_def)

lemma isWellFormed_placeholderSvg: "isWellFormed (placeholderSvg w h a) = isWellFormed a"
proof -
  have "list_all notSurrogate (svgOpen @ toString w @ svgHeight @ toString h @ svgBody)"
    by (simp add: notSurrogate_svgOpen notSurrogate_svgHeight notSurrogate_svgBody notSurrogate_toString)
  then have "isWellFormed (placeholderSvg w h a) = isWellFormed (a @ svgClose)"
    unfolding placeholderSvg_def
    using isWellFormed_prepend [of "svgOpen @ toString w @ svgHeight @ toString h @ svgBody" "a @ svgClose"]
    by simp
  then show ?thesis by (simp add: isWellFormed_append notSurrogate_svgClose)
qed

lemma isWellFormed_notAvailable: "isWellFormed (notAvailable @ a) = isWellFormed a"
  by (simp add: isWellFormed_prepend notSurrogate_notAvailable)

text \<open>The model of \<^verbatim>\<open>encodeURIComponent\<close> and of the decimal text on known values.\<close>

lemma encodeURIComponent_examples:
  "encodeURIComponent (js ''n'' @ [0xE3] @ js ''o <&>'') = Inr (js ''n%C3%A3o%20%3C%26%3E'')"
  "encodeURIComponent [0xD83C, 0xDFAC] = Inr (js ''%F0%9F%8E%AC'')"
  "encodeURIComponent [0xDFAC, 0xD83C] = Inl URIError"
  by (simp_all add: js_def uriUnreserved_def isLeadingSurrogate_def isTrailingSurrogate_def
      andThen_def escapeCodePoint_def utf8Octets_def percentEscape_def hexDigit_def
      surrogatePair_def)

lemma toString_examples:
  "toString 0 = js ''0''" "toString 400 = js ''400''" "toString 1280 = js ''1280''"
  by (simp_all add: toString.simps js_def)

section \<open>Properties of the image listeners\<close>

lemma missing_neq_loading: "img_missing \<noteq> img_loading"
  by (simp add: img_missing_def img_loading_def js_def)

lemma contains_add_same: "contains (add xs t) t"
  by (simp add: contains_def add_def)

lemma contains_add_keep: "contains xs t \<Longrightarrow> contains (add xs u) t"
  by (simp add: contains_def add_def)

lemma contains_remove_other: "t \<noteq> u \<Longrightarrow> contains (remove xs u) t = contains xs t"
  by (simp add: contains_def remove_def)

lemma contains_remove_same: "\<not> contains (remove xs t) t"
  by (simp add: contains_def remove_def)

lemma contains_add_other: "t \<noteq> u \<Longrightarrow> contains (add xs u) t = contains xs t"
  by (simp add: contains_def add_def)

lemma placeholder_ok_iff: "(\<exists>uri. placeholder e = Inr uri) = isWellFormed (alt e)"
  unfolding placeholder_def andThen_Inr encode_ok_iff isWellFormed_placeholderSvg ..

lemma placeholder_error: "placeholder e = Inl x \<Longrightarrow> x = URIError"
  unfolding placeholder_def andThen_def
  by (auto split: sum.splits dest: encode_error)

lemma placeholder_src: "placeholder (e\<lparr>src := u\<rparr>) = placeholder e"
  by (simp add: placeholder_def)

lemma onError_classList:
  "classList (fst (onError e)) = add (remove (classList e) img_loading) img_missing"
  by (simp add: onError_def Let_def split: sum.splits)

lemma onError_alt: "alt (fst (onError e)) = notAvailable @ alt e"
  by (simp add: onError_def Let_def split: sum.splits)

lemma onError_listeners: "errorListeners (fst (onError e)) = errorListeners e"
  by (simp add: onError_def Let_def split: sum.splits)

lemma onError_frame:
  "width (fst (onError e)) = width e"
  "height (fst (onError e)) = height e"
  "lazy (fst (onError e)) = lazy e"
  "complete (fst (onError e)) = complete e"
  "naturalWidth (fst (onError e)) = naturalWidth e"
  "naturalHeight (fst (onError e)) = naturalHeight e"
  "loadListeners (fst (onError e)) = loadListeners e"
  by (simp_all add: onError_def Let_def split: sum.splits)

lemma onError_src:
  "isWellFormed (alt e) \<Longrightarrow>
     snd (onError e) = None \<and> placeholder (fst (onError e)) = Inr (src (fst (onError e)))"
proof -
  let ?this3 = "e\<lparr>classList := add (remove (classList e) img_loading) img_missing,
                    alt := notAvailable @ alt e\<rparr>"
  assume "isWellFormed (alt e)"
  then have "isWellFormed (alt ?this3)" by (simp add: isWellFormed_notAvailable)
  then obtain uri where uri: "placeholder ?this3 = Inr uri"
    using placeholder_ok_iff [of ?this3] by blast
  then have "onError e = (?this3\<lparr>src := uri\<rparr>, None)"
    by (simp add: onError_def Let_def)
  with uri show ?thesis by (simp add: placeholder_src)
qed

lemma onError_throws:
  assumes "\<not> isWellFormed (alt e)"
  shows "onError e =
     (e\<lparr>classList := add (remove (classList e) img_loading) img_missing,
        alt := notAvailable @ alt e\<rparr>, Some URIError)"
proof -
  let ?this3 = "e\<lparr>classList := add (remove (classList e) img_loading) img_missing,
                    alt := notAvailable @ alt e\<rparr>"
  from assms have "\<not> isWellFormed (alt ?this3)" by (simp add: isWellFormed_notAvailable)
  then obtain x where "placeholder ?this3 = Inl x"
    using placeholder_ok_iff [of ?this3] by (cases "placeholder ?this3") auto
  moreover from this have "x = URIError" by (rule placeholder_error)
  ultimately show ?thesis by (simp add: onError_def Let_def)
qed

lemma onError_keeps_missing:
  "contains (classList e) img_missing \<Longrightarrow> contains (classList (fst (onError e))) img_missing"
  by (simp add: onError_classList contains_add_same)

lemma onError_iter_listeners:
  "errorListeners (((\<lambda>x. fst (onError x)) ^^ n) e) = errorListeners e"
  by (induction n) (simp_all add: onError_listeners)

lemma onError_iter_wf:
  "isWellFormed (alt (((\<lambda>x. fst (onError x)) ^^ n) e)) = isWellFormed (alt e)"
  by (induction n) (simp_all add: onError_alt isWellFormed_notAvailable)

lemma onError_iter_missing:
  "contains (classList e) img_missing \<Longrightarrow>
     contains (classList (((\<lambda>x. fst (onError x)) ^^ n) e)) img_missing"
  by (induction n) (simp_all add: onError_keeps_missing)

lemma onLoad_iter_missing:
  "contains (classList e) img_missing \<Longrightarrow> contains (classList ((onLoad ^^ n) e)) img_missing"
  by (induction n) (simp_all add: onLoad_def contains_remove_other missing_neq_loading)

lemma dispatchLoad_missing:
  "contains (classList e) img_missing \<Longrightarrow> contains (classList (dispatchLoad e)) img_missing"
  by (simp add: dispatchLoad_def onLoad_iter_missing)

lemma dispatchError_missing:
  "contains (classList e) img_missing \<Longrightarrow> contains (classList (dispatchError e)) img_missing"
  by (simp add: dispatchError_def onError_iter_missing)

lemma onTimeout_missing:
  "contains (classList e) img_missing \<Longrightarrow> contains (classList (onTimeout e)) img_missing"
  by (simp add: onTimeout_def dispatchError_missing)

lemma register_missing:
  "contains (classList e) img_missing \<Longrightarrow> contains (classList (register e)) img_missing"
  by (simp add: register_def Let_def contains_add_keep)

lemma dispatchError_last:
  "0 < errorListeners e \<Longrightarrow>
     \<exists>e0. dispatchError e = fst (onError e0) \<and> isWellFormed (alt e0) = isWellFormed (alt e)"
proof -
  assume "0 < errorListeners e"
  then obtain m where m: "errorListeners e = Suc m" by (cases "errorListeners e") auto
  let ?e0 = "((\<lambda>x. fst (onError x)) ^^ m) e"
  have "dispatchError e = fst (onError ?e0)" by (simp add: dispatchError_def m)
  moreover have "isWellFormed (alt ?e0) = isWellFormed (alt e)" by (rule onError_iter_wf)
  ultimately show ?thesis by blast
qed

lemma dispatchError_marks:
  assumes "0 < errorListeners e"
  shows "contains (classList (dispatchError e)) img_missing"
    and "\<not> contains (classList (dispatchError e)) img_loading"
    and "startsWith (alt (dispatchError e)) notAvailable"
    and "isWellFormed (alt e) \<Longrightarrow> placeholder (dispatchError e) = Inr (src (dispatchError e))"
proof -
  from assms obtain e0 where e0: "dispatchError e = fst (onError e0)"
    and wf: "isWellFormed (alt e0) = isWellFormed (alt e)"
    using dispatchError_last by blast
  show "contains (classList (dispatchError e)) img_missing"
    by (simp add: e0 onError_classList contains_add_same)
  show "\<not> contains (classList (dispatchError e)) img_loading"
    using missing_neq_loading
    by (simp add: e0 onError_classList contains_add_other contains_remove_same)
  show "startsWith (alt (dispatchError e)) notAvailable"
    by (simp add: e0 onError_alt startsWith_def)
  show "placeholder (dispatchError e) = Inr (src (dispatchError e))" if "isWellFormed (alt e)"
    using that wf onError_src [of e0] by (simp add: e0)
qed

lemma dispatchError_none: "errorListeners e = 0 \<Longrightarrow> dispatchError e = e"
  by (simp add: dispatchError_def)

lemma scanFrom_images:
  "images (scanFrom i doc) =
     map (\<lambda>e. if contains (classList e) img_missing then e
              else if complete e \<and> (naturalWidth e = 0 \<or> naturalHeight e = 0)
              then dispatchError e
              else e) doc"
  by (induction doc arbitrary: i) (simp_all add: Let_def)

lemma scanFrom_nth:
  "k < length doc \<Longrightarrow>
     images (scanFrom i doc) ! k =
       (if contains (classList (doc ! k)) img_missing then doc ! k
        else if complete (doc ! k) \<and> (naturalWidth (doc ! k) = 0 \<or> naturalHeight (doc ! k) = 0)
        then dispatchError (doc ! k)
        else doc ! k)"
  by (simp only: scanFrom_images nth_map)

lemma scanFrom_dispatched_Cons:
  "j \<in> set (dispatched (scanFrom i (e # rest))) \<Longrightarrow>
     (j = i \<and> \<not> contains (classList e) img_missing) \<or>
     j \<in> set (dispatched (scanFrom (Suc i) rest))"
  by (auto simp: Let_def split: if_splits)

lemma scanFrom_timers_Cons:
  "j \<in> set (timers (scanFrom i (e # rest))) \<Longrightarrow>
     (j = i \<and> \<not> contains (classList e) img_missing) \<or>
     j \<in> set (timers (scanFrom (Suc i) rest))"
  by (auto simp: Let_def split: if_splits)

lemma scanFrom_dispatched:
  "j \<in> set (dispatched (scanFrom i doc)) \<Longrightarrow>
     i \<le> j \<and> j - i < length doc \<and> \<not> contains (classList (doc ! (j - i))) img_missing"
proof (induction doc arbitrary: i)
  case Nil
  then show ?case by simp
next
  case (Cons e rest)
  from scanFrom_dispatched_Cons [OF Cons.prems] show ?case
  proof
    assume "j = i \<and> \<not> contains (classList e) img_missing"
    then show ?thesis by simp
  next
    assume "j \<in> set (dispatched (scanFrom (Suc i) rest))"
    from Cons.IH [OF this] have "Suc i \<le> j" and "j - Suc i < length rest"
      and "\<not> contains (classList (rest ! (j - Suc i))) img_missing" by simp_all
    moreover from \<open>Suc i \<le> j\<close> have "j - i = Suc (j - Suc i)" by simp
    ultimately show ?thesis by simp
  qed
qed

lemma scanFrom_timers:
  "j \<in> set (timers (scanFrom i doc)) \<Longrightarrow>
     i \<le> j \<and> j - i < length doc \<and> \<not> contains (classList (doc ! (j - i))) img_missing"
proof (induction doc arbitrary: i)
  case Nil
  then show ?case by simp
next
  case (Cons e rest)
  from scanFrom_timers_Cons [OF Cons.prems] show ?case
  proof
    assume "j = i \<and> \<not> contains (classList e) img_missing"
    then show ?thesis by simp
  next
    assume "j \<in> set (timers (scanFrom (Suc i) rest))"
    from Cons.IH [OF this] have "Suc i \<le> j" and "j - Suc i < length rest"
      and "\<not> contains (classList (rest ! (j - Suc i))) img_missing" by simp_all
    moreover from \<open>Suc i \<le> j\<close> have "j - i = Suc (j - Suc i)" by simp
    ultimately show ?thesis by simp
  qed
qed

lemma scanFrom_length: "length (images (scanFrom i doc)) = length doc"
  by (simp add: scanFrom_images)

lemma scanFrom_missing:
  "k < length doc \<Longrightarrow> contains (classList (doc ! k)) img_missing \<Longrightarrow>
     contains (classList (images (scanFrom i doc) ! k)) img_missing"
  by (simp add: scanFrom_nth)

lemma step_length: "length (step doc x) = length doc"
  by (cases x) (simp_all add: initializeImageHandling_def checkForBrokenImages_def scanFrom_length)

lemma step_missing:
  assumes "k < length doc" and "contains (classList (doc ! k)) img_missing"
  shows "contains (classList (step doc x ! k)) img_missing"
proof (cases x)
  case (LoadEvent j)
  with assms show ?thesis by (simp add: nth_list_update dispatchLoad_missing)
next
  case (ErrorEvent j)
  with assms show ?thesis by (simp add: nth_list_update dispatchError_missing)
next
  case (TimerFires j)
  with assms show ?thesis by (simp add: nth_list_update onTimeout_missing)
next
  case InitializeImageHandling
  with assms show ?thesis
    by (simp add: initializeImageHandling_def checkForBrokenImages_def scanFrom_nth register_missing)
next
  case CheckForBrokenImages
  with assms show ?thesis by (simp add: checkForBrokenImages_def scanFrom_nth)
qed

lemma register_lazy: "lazy e \<Longrightarrow> 0 < errorListeners (register e)"
  by (simp add: register_def Let_def)

lemma register_frame:
  "complete (register e) = complete e"
  "naturalWidth (register e) = naturalWidth e"
  "naturalHeight (register e) = naturalHeight e"
  "alt (register e) = alt e"
  "contains (classList (register e)) img_missing = contains (classList e) img_missing"
  using missing_neq_loading
  by (simp_all add: register_def Let_def contains_add_other)

lemma initializeImageHandling_marks:
  assumes "k < length doc" and "lazy (doc ! k)" and "complete (doc ! k)"
    and "naturalWidth (doc ! k) = 0 \<or> naturalHeight (doc ! k) = 0"
    and "\<not> contains (classList (doc ! k)) img_missing"
  shows "contains (classList (images (initializeImageHandling doc) ! k)) img_missing"
    and "startsWith (alt (images (initializeImageHandling doc) ! k)) notAvailable"
    and "isWellFormed (alt (doc ! k)) \<Longrightarrow>
           placeholder (images (initializeImageHandling doc) ! k)
             = Inr (src (images (initializeImageHandling doc) ! k))"
proof -
  let ?e = "register (doc ! k)"
  have "images (initializeImageHandling doc) ! k = dispatchError ?e"
    using assms
    by (simp add: initializeImageHandling_def checkForBrokenImages_def scanFrom_nth register_frame)
  moreover have "0 < errorListeners ?e" using assms(2) by (rule register_lazy)
  ultimately show "contains (classList (images (initializeImageHandling doc) ! k)) img_missing"
    and "startsWith (alt (images (initializeImageHandling doc) ! k)) notAvailable"
    and "isWellFormed (alt (doc ! k)) \<Longrightarrow>
           placeholder (images (initializeImageHandling doc) ! k)
             = Inr (src (images (initializeImageHandling doc) ! k))"
    using dispatchError_marks [of ?e] by (simp_all add: register_frame)
qed

lemma onError_result:
  "contains (classList (fst (onError e))) img_missing"
  "\<not> contains (classList (fst (onError e))) img_loading"
  "startsWith (alt (fst (onError e))) notAvailable"
  "isWellFormed (alt e) \<Longrightarrow> placeholder (fst (onError e)) = Inr (src (fst (onError e)))"
  using missing_neq_loading onError_src [of e]
  by (simp_all add: onError_classList onError_alt contains_add_same contains_add_other
      contains_remove_same startsWith_def)

text \<open>
  What the scan does to an image that is complete with a zero natural width or height and
  not yet marked: it dispatches an \<^verbatim>\<open>error\<close> event on it. With an error listener registered
  the image afterwards carries \<^verbatim>\<open>img-missing\<close>, its alt text starts with the not-available
  marker and, when the alt text has no unpaired surrogate, its \<^verbatim>\<open>src\<close> is the placeholder
  generated for it; without one the image is as before.
\<close>

lemma scan_marks_image_with_listener:
  assumes "k < length doc"
    and "0 < errorListeners (doc ! k)"
    and "complete (doc ! k)"
    and "naturalWidth (doc ! k) = 0 \<or> naturalHeight (doc ! k) = 0"
    and "\<not> contains (classList (doc ! k)) img_missing"
  shows "contains (classList (images (checkForBrokenImages doc) ! k)) img_missing
       \<and> startsWith (alt (images (checkForBrokenImages doc) ! k)) notAvailable
       \<and> (isWellFormed (alt (doc ! k)) \<longrightarrow>
            placeholder (images (checkForBrokenImages doc) ! k)
              = Inr (src (images (checkForBrokenImages doc) ! k)))"
proof -
  have "images (checkForBrokenImages doc) ! k = dispatchError (doc ! k)"
    using assms by (simp add: checkForBrokenImages_def scanFrom_nth)
  then show ?thesis
    using dispatchError_marks [OF assms(2)] by simp
qed

lemma scanFrom_dispatched_iff:
  "(j \<in> set (dispatched (scanFrom i doc))) =
     (i \<le> j \<and> j - i < length doc
      \<and> \<not> contains (classList (doc ! (j - i))) img_missing
      \<and> complete (doc ! (j - i))
      \<and> (naturalWidth (doc ! (j - i)) = 0 \<or> naturalHeight (doc ! (j - i)) = 0))"
proof (induction doc arbitrary: i)
  case Nil
  show ?case by simp
next
  case (Cons e rest)
  show ?case
  proof (cases "j = i")
    case True
    have "i \<notin> set (dispatched (scanFrom (Suc i) rest))"
      using Cons.IH [of "Suc i"] True by simp
    with True show ?thesis by (simp add: Let_def)
  next
    case False
    have "(j \<in> set (dispatched (scanFrom i (e # rest)))) =
        (j \<in> set (dispatched (scanFrom (Suc i) rest)))"
      using False by (simp add: Let_def)
    also have "\<dots> = (Suc i \<le> j \<and> j - Suc i < length rest
      \<and> \<not> contains (classList (rest ! (j - Suc i))) img_missing
      \<and> complete (rest ! (j - Suc i))
      \<and> (naturalWidth (rest ! (j - Suc i)) = 0 \<or> naturalHeight (rest ! (j - Suc i)) = 0))"
      by (rule Cons.IH)
    also have "\<dots> = (i \<le> j \<and> j - i < length (e # rest)
      \<and> \<not> contains (classList ((e # rest) ! (j - i))) img_missing
      \<and> complete ((e # rest) ! (j - i))
      \<and> (naturalWidth ((e # rest) ! (j - i)) = 0 \<or> naturalHeight ((e # rest) ! (j - i)) = 0))"
    proof (cases "Suc i \<le> j")
      case True
      then have "j - i = Suc (j - Suc i)" by simp
      with True show ?thesis by auto
    next
      case False
      with \<open>j \<noteq> i\<close> have "\<not> i \<le> j" by simp
      with False show ?thesis by simp
    qed
    finally show ?thesis .
  qed
qed

lemma scan_dispatches:
  "k < length doc \<Longrightarrow>
     (k \<in> set (dispatched (checkForBrokenImages doc))) =
       (\<not> contains (classList (doc ! k)) img_missing \<and> complete (doc ! k)
        \<and> (naturalWidth (doc ! k) = 0 \<or> naturalHeight (doc ! k) = 0))"
  by (simp add: checkForBrokenImages_def scanFrom_dispatched_iff)

lemma scan_without_listener:
  "k < length doc \<Longrightarrow> errorListeners (doc ! k) = 0 \<Longrightarrow>
     images (checkForBrokenImages doc) ! k = doc ! k"
  by (simp add: checkForBrokenImages_def scanFrom_nth dispatchError_none)

lemma register_eager: "\<not> lazy e \<Longrightarrow> register e = e"
  by (simp add: register_def)

lemma initializeImageHandling_eager:
  assumes "k < length doc" and "\<not> lazy (doc ! k)" and "errorListeners (doc ! k) = 0"
  shows "images (initializeImageHandling doc) ! k = doc ! k"
  using assms
  by (simp add: initializeImageHandling_def checkForBrokenImages_def scanFrom_nth
      register_eager dispatchError_none)

section \<open>The claims about images\<close>

text \<open>
  C1 at an image that is not deferred-loading, complete with natural width zero and not
  marked: the scan, also when \<^verbatim>\<open>initializeImageHandling\<close> runs it, dispatches the
  \<^verbatim>\<open>error\<close> event on it, but the listeners are registered on \<^verbatim>\<open>img[loading="lazy"]\<close> only,
  so the event reaches none: the image is as before and does not carry \<^verbatim>\<open>img-missing\<close>.
  (\<open>scan_without_listener\<close> gives this for every image without the listener, and
  \<open>scan_marks_image_with_listener\<close> what the scan does to an image that has it.)
\<close>

theorem C1_eager_image_stays_unmarked:
  "complete brokenLogo \<and> naturalWidth brokenLogo = 0
   \<and> \<not> contains (classList brokenLogo) img_missing
   \<and> dispatched (initializeImageHandling [brokenLogo]) = [0]
   \<and> images (initializeImageHandling [brokenLogo]) = [brokenLogo]
   \<and> \<not> contains (classList (images (initializeImageHandling [brokenLogo]) ! 0)) img_missing"
  by (simp add: initializeImageHandling_def checkForBrokenImages_def register_def
      brokenLogo_def contains_def dispatchError_def Let_def)

text \<open>
  C2 at an alt text with an unpaired surrogate: the error listener sets the classes and
  the alt text, then \<^verbatim>\<open>encodeURIComponent\<close> raises \<^verbatim>\<open>URIError\<close> and \<^verbatim>\<open>src\<close> keeps the
  address that failed to load, also after the \<^verbatim>\<open>error\<close> event that runs the one registered
  listener. (For every other alt text \<open>onError_result\<close> gives what C2 says.)
\<close>

theorem C2_unpaired_surrogate_keeps_src:
  "onError halfEmoji =
     (halfEmoji\<lparr>classList := [js ''poster'', img_missing], alt := notAvailable @ [0xD83C]\<rparr>,
      Some URIError)
   \<and> dispatchError halfEmoji = fst (onError halfEmoji)
   \<and> src (dispatchError halfEmoji) = js ''img/cartaz.jpg''"
proof -
  have "\<not> isWellFormed (alt halfEmoji)"
    by (simp add: halfEmoji_def isLeadingSurrogate_def)
  from onError_throws [OF this]
  have "onError halfEmoji =
     (halfEmoji\<lparr>classList := [js ''poster'', img_missing], alt := notAvailable @ [0xD83C]\<rparr>,
      Some URIError)"
    by (simp add: halfEmoji_def brokenPoster_def add_def remove_def img_loading_def
        img_missing_def js_def)
  moreover have "dispatchError halfEmoji = fst (onError halfEmoji)"
    by (simp add: dispatchError_def halfEmoji_def brokenPoster_def)
  ultimately show ?thesis by (simp add: halfEmoji_def brokenPoster_def)
qed

text \<open>
  C3: an image that carries the class \<^verbatim>\<open>img-missing\<close> still carries it after any sequence
  of \<^verbatim>\<open>load\<close> and \<^verbatim>\<open>error\<close> events, timer callbacks and runs of
  \<^verbatim>\<open>initializeImageHandling\<close> and \<^verbatim>\<open>checkForBrokenImages\<close>; no operation changes the number
  of images.
\<close>

theorem C3_missing_is_never_removed:
  assumes "k < length doc" and "contains (classList (doc ! k)) img_missing"
  shows "length (run doc xs) = length doc \<and> contains (classList (run doc xs ! k)) img_missing"
  using assms
proof (induction xs arbitrary: doc)
  case Nil
  then show ?case by (simp add: run_def)
next
  case (Cons x xs)
  have "k < length (step doc x)" using Cons.prems by (simp add: step_length)
  moreover have "contains (classList (step doc x ! k)) img_missing"
    using Cons.prems by (rule step_missing)
  ultimately show ?case using Cons.IH [of "step doc x"] by (simp add: run_def step_length)
qed

text \<open>A document with an image marked as missing, under six operations.\<close>

theorem C3_witness:
  "contains (classList ([brokenLogo, missingPoster] ! 1)) img_missing
   \<and> contains
        (classList
          (run [brokenLogo, missingPoster]
             [LoadEvent 1, CheckForBrokenImages, ErrorEvent 1, TimerFires 1,
              InitializeImageHandling, LoadEvent 1] ! 1))
        img_missing"
  using C3_missing_is_never_removed [of 1 "[brokenLogo, missingPoster]"
      "[LoadEvent 1, CheckForBrokenImages, ErrorEvent 1, TimerFires 1,
        InitializeImageHandling, LoadEvent 1]"]
  by (simp add: missingPoster_def contains_def)

text \<open>
  C4: \<^verbatim>\<open>checkForBrokenImages\<close> leaves an image that carries \<^verbatim>\<open>img-missing\<close> exactly as it
  was (its \<^verbatim>\<open>src\<close> and everything else), dispatches no \<^verbatim>\<open>error\<close> event on it and sets no
  timer for it.
\<close>

theorem C4_scan_skips_missing_images:
  assumes "k < length doc" and "contains (classList (doc ! k)) img_missing"
  shows "images (checkForBrokenImages doc) ! k = doc ! k
       \<and> k \<notin> set (dispatched (checkForBrokenImages doc))
       \<and> k \<notin> set (timers (checkForBrokenImages doc))"
proof -
  have "images (checkForBrokenImages doc) ! k = doc ! k"
    using assms by (simp add: checkForBrokenImages_def scanFrom_nth)
  moreover have "k \<notin> set (dispatched (checkForBrokenImages doc))"
    using assms(2) scanFrom_dispatched [of k 0 doc] by (auto simp: checkForBrokenImages_def)
  moreover have "k \<notin> set (timers (checkForBrokenImages doc))"
    using assms(2) scanFrom_timers [of k 0 doc] by (auto simp: checkForBrokenImages_def)
  ultimately show ?thesis by simp
qed

text \<open>
  The image marked as missing is skipped while the scan dispatches an event on the other
  image of the document.
\<close>

theorem C4_witness:
  "contains (classList ([brokenLogo, missingPoster] ! 1)) img_missing
   \<and> images (checkForBrokenImages [brokenLogo, missingPoster]) ! 1 = missingPoster
   \<and> 1 \<notin> set (dispatched (checkForBrokenImages [brokenLogo, missingPoster]))
   \<and> 1 \<notin> set (timers (checkForBrokenImages [brokenLogo, missingPoster]))"
  using C4_scan_skips_missing_images [of 1 "[brokenLogo, missingPoster]"]
  by (simp add: missingPoster_def contains_def)

text \<open>
  C8 at the alt text \<^verbatim>\<open>Tom & Jerry\<close>: the error listener ends normally and writes to
  \<^verbatim>\<open>src\<close> the data URI of a markup that holds the alt text as it is, so its ampersand stands
  before a space and the markup is not well-formed XML.
\<close>

theorem C8_ampersand_breaks_placeholder:
  "snd (onError tomAndJerry) = None
   \<and> Inr (src (fst (onError tomAndJerry)))
       = andThen
           (encodeURIComponent (placeholderSvg 400 300 (notAvailable @ js ''Tom & Jerry'')))
           ((@) dataUriPrefix)
   \<and> strayAmpersand (placeholderSvg 400 300 (notAvailable @ js ''Tom & Jerry''))"
proof -
  have wf: "isWellFormed (alt tomAndJerry)"
    by (simp add: tomAndJerry_def js_def isLeadingSurrogate_def isTrailingSurrogate_def)
  have "placeholder (fst (onError tomAndJerry)) =
      andThen
        (encodeURIComponent (placeholderSvg 400 300 (notAvailable @ js ''Tom & Jerry'')))
        ((@) dataUriPrefix)"
    by (simp add: placeholder_def onError_alt onError_frame orElse_def
        tomAndJerry_def brokenPoster_def)
  moreover have "strayAmpersand (placeholderSvg 400 300 (notAvailable @ js ''Tom & Jerry''))"
    by (simp add: placeholderSvg_def svgOpen_def svgHeight_def svgBody_def svgClose_def
        notAvailable_def toString.simps js_def nameStart_def)
  ultimately show ?thesis using onError_src [OF wf] by simp
qed

section \<open>Properties of the click listener\<close>

lemma firstFrom_Some:
  "firstFrom i p xs = Some (j, e) \<Longrightarrow> i \<le> j \<and> j - i < length xs \<and> xs ! (j - i) = e \<and> p e"
proof (induction xs arbitrary: i)
  case Nil
  then show ?case by simp
next
  case (Cons x xs)
  show ?case
  proof (cases "p x")
    case True
    with Cons.prems show ?thesis by simp
  next
    case False
    with Cons.prems have "firstFrom (Suc i) p xs = Some (j, e)" by simp
    from Cons.IH [OF this] have "Suc i \<le> j" and "j - Suc i < length xs"
      and "xs ! (j - Suc i) = e" and "p e" by simp_all
    moreover from \<open>Suc i \<le> j\<close> have "j - i = Suc (j - Suc i)" by simp
    ultimately show ?thesis by simp
  qed
qed

lemma firstFrom_None: "(firstFrom i p xs = None) = (\<forall>e \<in> set xs. \<not> p e)"
  by (induction xs arbitrary: i) simp_all

lemma hash_href:
  "name \<noteq> [] \<Longrightarrow>
     js ''#'' @ name \<noteq> js ''#'' \<and> startsWith (js ''#'' @ name) (js ''#'')
     \<and> substring1 (js ''#'' @ name) = name"
  by (simp add: js_def startsWith_def substring1_def)

lemma firstFrom_exists:
  "\<exists>e \<in> set xs. p e \<Longrightarrow> \<exists>j e. firstFrom i p xs = Some (j, e)"
  using firstFrom_None [of i p xs] by (cases "firstFrom i p xs") auto

lemma firstFrom_first:
  "firstFrom i p xs = Some (j, e) \<Longrightarrow> \<forall>n < j - i. \<not> p (xs ! n)"
proof (induction xs arbitrary: i)
  case Nil
  then show ?case by simp
next
  case (Cons x xs)
  show ?case
  proof (cases "p x")
    case True
    with Cons.prems show ?thesis by simp
  next
    case False
    with Cons.prems have rest: "firstFrom (Suc i) p xs = Some (j, e)" by simp
    from firstFrom_Some [OF rest] have "Suc i \<le> j" by simp
    then have split: "j - i = Suc (j - Suc i)" by simp
    show ?thesis
    proof (intro allI impI)
      fix n
      assume "n < j - i"
      with split have "n = 0 \<or> (\<exists>n'. n = Suc n' \<and> n' < j - Suc i)" by (cases n) auto
      then show "\<not> p ((x # xs) ! n)"
        using False Cons.IH [OF rest] by auto
    qed
  qed
qed

lemma getElementById_first:
  assumes "getElementById pg name = Some (t, target)"
  shows "t < length (elements pg) \<and> elements pg ! t = target \<and> ident target = name
       \<and> (\<forall>j < t. ident (elements pg ! j) \<noteq> name)"
proof -
  from assms have found: "firstFrom 0 (\<lambda>e. ident e = name) (elements pg) = Some (t, target)"
    by (simp add: getElementById_def split: if_splits)
  from firstFrom_Some [OF found] firstFrom_first [OF found] show ?thesis by simp
qed

lemma querySelectorMenu_first:
  assumes "querySelectorMenu pg = Some (m, menu)"
  shows "m < length (elements pg) \<and> elements pg ! m = menu
       \<and> contains (classNames menu) (js ''menu'')
       \<and> (\<forall>j < m. \<not> contains (classNames (elements pg ! j)) (js ''menu''))"
proof -
  from assms have found:
    "firstFrom 0 (\<lambda>e. contains (classNames e) (js ''menu'')) (elements pg) = Some (m, menu)"
    by (simp add: querySelectorMenu_def)
  from firstFrom_Some [OF found] firstFrom_first [OF found] show ?thesis by simp
qed

section \<open>The claims about smooth scrolling\<close>

text \<open>
  C5, as the platform has it: a click on an anchor whose \<^verbatim>\<open>href\<close> is \<^verbatim>\<open>#\<close> followed by a
  non-empty name, in a page that has an element with that \<^verbatim>\<open>id\<close> and an element of class
  \<^verbatim>\<open>menu\<close>. With \<open>t\<close> the first element in tree order that has the \<^verbatim>\<open>id\<close> and \<open>m\<close> the
  first of class \<^verbatim>\<open>menu\<close>, the listener prevents the default action, asks the window to
  scroll smoothly to the \<^verbatim>\<open>offsetTop\<close> of \<open>t\<close> minus the \<^verbatim>\<open>offsetHeight\<close> of \<open>m\<close> minus 20,
  sets the \<^verbatim>\<open>tabindex\<close> of \<open>t\<close> to \<^verbatim>\<open>-1\<close>, calls \<^verbatim>\<open>focus()\<close> on \<open>t\<close> and ends normally.
  The focus moves to \<open>t\<close> when \<open>t\<close> is being rendered and is neither disabled nor inert;
  otherwise it stays where it was. Nothing else of the page changes.
\<close>

theorem C5_click_scrolls_and_focuses:
  assumes "name \<noteq> []"
    and "\<exists>e \<in> set (elements pg). ident e = name"
    and "\<exists>e \<in> set (elements pg). contains (classNames e) (js ''menu'')"
  shows "\<exists>t m.
           t < length (elements pg) \<and> ident (elements pg ! t) = name
           \<and> (\<forall>j < t. ident (elements pg ! j) \<noteq> name)
           \<and> m < length (elements pg) \<and> contains (classNames (elements pg ! m)) (js ''menu'')
           \<and> (\<forall>j < m. \<not> contains (classNames (elements pg ! j)) (js ''menu''))
           \<and> onClick (Some (js ''#'' @ name)) pg =
               (pg\<lparr>elements := (elements pg)[t := (elements pg ! t)\<lparr>tabindex := Some (js ''-1'')\<rparr>],
                   activeElement :=
                     (if beingRendered (elements pg ! t) \<and> \<not> disabled (elements pg ! t)
                         \<and> \<not> inert (elements pg ! t)
                      then Some t else activeElement pg),
                   scrollCalls := scrollCalls pg @
                     [(offsetTop (elements pg ! t) - offsetHeight (elements pg ! m) - 20, Smooth)]\<rparr>,
                True, Normal)"
proof -
  from assms(1,2) obtain t target where found: "getElementById pg name = Some (t, target)"
    using firstFrom_exists [of "elements pg" "\<lambda>e. ident e = name" 0]
    by (auto simp: getElementById_def)
  from assms(3) obtain m menu where menu: "querySelectorMenu pg = Some (m, menu)"
    using firstFrom_exists [of "elements pg" "\<lambda>e. contains (classNames e) (js ''menu'')" 0]
    by (auto simp: querySelectorMenu_def)
  note t = getElementById_first [OF found]
  note m = querySelectorMenu_first [OF menu]
  from t m have "onClick (Some (js ''#'' @ name)) pg =
      (pg\<lparr>elements := (elements pg)[t := (elements pg ! t)\<lparr>tabindex := Some (js ''-1'')\<rparr>],
          activeElement :=
            (if beingRendered (elements pg ! t) \<and> \<not> disabled (elements pg ! t)
                \<and> \<not> inert (elements pg ! t)
             then Some t else activeElement pg),
          scrollCalls := scrollCalls pg @
            [(offsetTop (elements pg ! t) - offsetHeight (elements pg ! m) - 20, Smooth)]\<rparr>,
       True, Normal)"
    using found menu hash_href [OF assms(1)]
    by (simp add: onClick_def Let_def focus_def focusable_def setTabindex_def scrollTo_def)
  with t m show ?thesis by blast
qed

text \<open>
  On the page with a banner before the header and a footer repeating \<^verbatim>\<open>id\<close> and class, a
  click on \<^verbatim>\<open>#filmes\<close> takes the section and the header: it scrolls to 900 - 64 - 20.
\<close>

theorem C5_witness:
  "onClick (Some (js ''#filmes'')) crowdedPage =
     (crowdedPage\<lparr>elements := [banner, header\<lparr>offsetTop := 40\<rparr>,
                                filmes\<lparr>tabindex := Some (js ''-1'')\<rparr>, footer],
                  activeElement := Some 2,
                  scrollCalls := [(816, Smooth)]\<rparr>,
      True, Normal)"
proof -
  let ?els = "elements crowdedPage"
  have els: "?els = [banner, header\<lparr>offsetTop := 40\<rparr>, filmes, footer]"
    by (simp add: crowdedPage_def)
  have name: "js ''filmes'' \<noteq> []" by (simp add: js_def)
  have hasId: "\<exists>e \<in> set ?els. ident e = js ''filmes''"
    by (simp add: els filmes_def)
  have hasMenu: "\<exists>e \<in> set ?els. contains (classNames e) (js ''menu'')"
    by (simp add: els header_def contains_def)
  from C5_click_scrolls_and_focuses [OF name hasId hasMenu]
  obtain t m where t: "t < length ?els" "ident (?els ! t) = js ''filmes''"
      "\<forall>j < t. ident (?els ! j) \<noteq> js ''filmes''"
    and m: "m < length ?els" "contains (classNames (?els ! m)) (js ''menu'')"
      "\<forall>j < m. \<not> contains (classNames (?els ! j)) (js ''menu'')"
    and click: "onClick (Some (js ''#'' @ js ''filmes'')) crowdedPage =
        (crowdedPage\<lparr>elements := ?els[t := (?els ! t)\<lparr>tabindex := Some (js ''-1'')\<rparr>],
            activeElement :=
              (if beingRendered (?els ! t) \<and> \<not> disabled (?els ! t) \<and> \<not> inert (?els ! t)
               then Some t else activeElement crowdedPage),
            scrollCalls := scrollCalls crowdedPage @
              [(offsetTop (?els ! t) - offsetHeight (?els ! m) - 20, Smooth)]\<rparr>,
         True, Normal)"
    by blast
  have ids: "ident (?els ! 0) \<noteq> js ''filmes''" "ident (?els ! 1) \<noteq> js ''filmes''"
      "ident (?els ! 2) = js ''filmes''"
    by (simp_all add: els banner_def header_def filmes_def js_def)
  have "t = 2"
  proof -
    from t(1) have "t = 0 \<or> t = 1 \<or> t = 2 \<or> t = 3" by (auto simp: els)
    with t(2,3) ids show ?thesis by auto
  qed
  have menus: "\<not> contains (classNames (?els ! 0)) (js ''menu'')"
      "contains (classNames (?els ! 1)) (js ''menu'')"
    by (simp_all add: els banner_def header_def contains_def js_def)
  have "m = 1"
  proof -
    from m(1) have "m = 0 \<or> m = 1 \<or> m = 2 \<or> m = 3" by (auto simp: els)
    with m(2,3) menus show ?thesis by auto
  qed
  from click show ?thesis
    unfolding \<open>t = 2\<close> \<open>m = 1\<close>
    by (simp add: els) (simp add: crowdedPage_def filmes_def header_def js_def)
qed

text \<open>
  C5 as stated fails for a target that is not rendered: the listener scrolls and sets
  \<^verbatim>\<open>tabindex\<close>, but \<^verbatim>\<open>focus()\<close> does nothing on it and the focus stays on the header.
\<close>

theorem C5_hidden_target_counterexample:
  "ident (elements hiddenPage ! 1) = js ''filmes''
   \<and> contains (classNames (elements hiddenPage ! 0)) (js ''menu'')
   \<and> onClick (Some (js ''#filmes'')) hiddenPage =
       (hiddenPage\<lparr>elements :=
            [header, filmes\<lparr>beingRendered := False, offsetTop := 0, offsetHeight := 0,
                           tabindex := Some (js ''-1'')\<rparr>],
          scrollCalls := [(- 84, Smooth)]\<rparr>, True, Normal)
   \<and> activeElement (fst (onClick (Some (js ''#filmes'')) hiddenPage)) = Some 0"
  by (simp add: onClick_def getElementById_def querySelectorMenu_def hiddenPage_def header_def
      filmes_def contains_def startsWith_def substring1_def focus_def focusable_def
      setTabindex_def scrollTo_def Let_def js_def)

text \<open>
  C6: a click on an anchor whose \<^verbatim>\<open>href\<close> is \<^verbatim>\<open>#\<close> followed by a non-empty name that is the
  \<^verbatim>\<open>id\<close> of no element: the listener prevents the default action and ends normally, and the
  page is as before (no scroll, no change of focus, no attribute changed).
\<close>

theorem C6_click_without_target_does_nothing:
  assumes "name \<noteq> []" and "\<forall>e \<in> set (elements pg). ident e \<noteq> name"
  shows "onClick (Some (js ''#'' @ name)) pg = (pg, True, Normal)"
proof -
  from assms(2) have "getElementById pg name = None"
    by (simp add: getElementById_def firstFrom_None)
  then show ?thesis
    using hash_href [OF assms(1)] by (simp add: onClick_def)
qed

text \<open>The example page has no element \<^verbatim>\<open>series\<close>.\<close>

theorem C6_witness:
  "onClick (Some (js ''#series'')) catalogPage = (catalogPage, True, Normal)"
  using C6_click_without_target_does_nothing [of "js ''series''" catalogPage]
  by (simp add: catalogPage_def header_def filmes_def js_def)

text \<open>
  C10: in a page with no element of class \<^verbatim>\<open>menu\<close>, a click on a fragment link whose target
  exists prevents the default action and then ends with a \<^verbatim>\<open>TypeError\<close> (reading
  \<^verbatim>\<open>offsetHeight\<close> of \<^verbatim>\<open>null\<close>); the page is as before, so nothing was scrolled or focused.
\<close>

theorem C10_click_without_menu_throws:
  assumes "name \<noteq> []"
    and "\<exists>e \<in> set (elements pg). ident e = name"
    and "\<forall>e \<in> set (elements pg). \<not> contains (classNames e) (js ''menu'')"
  shows "onClick (Some (js ''#'' @ name)) pg = (pg, True, Throw TypeError)"
proof -
  from assms(1,2) obtain t target where "getElementById pg name = Some (t, target)"
    using firstFrom_exists [of "elements pg" "\<lambda>e. ident e = name" 0]
    by (auto simp: getElementById_def)
  moreover from assms(3) have "querySelectorMenu pg = None"
    by (simp add: querySelectorMenu_def firstFrom_None)
  ultimately show ?thesis
    using hash_href [OF assms(1)] by (simp add: onClick_def)
qed

text \<open>The example page without its header.\<close>

theorem C10_witness:
  "onClick (Some (js ''#filmes'')) pageWithoutMenu = (pageWithoutMenu, True, Throw TypeError)"
  using C10_click_without_menu_throws [of "js ''filmes''" pageWithoutMenu]
  by (simp add: pageWithoutMenu_def filmes_def contains_def js_def)

section \<open>The claim about the existence probe\<close>

text \<open>
  C7: the promise of \<^verbatim>\<open>checkImageExists\<close> is fulfilled with \<^verbatim>\<open>true\<close> exactly when the request
  ends with a response whose status is a success; it is fulfilled with \<^verbatim>\<open>false\<close> for every
  other response and for every exception of the request; it is never rejected.
\<close>

theorem C7_probe_never_rejects:
  "(checkImageExists fetch url = Fulfilled True) = (\<exists>r. fetch url = Responds r \<and> ok r)
   \<and> (\<forall>r. fetch url = Responds r \<and> \<not> ok r \<longrightarrow> checkImageExists fetch url = Fulfilled False)
   \<and> (\<forall>e. fetch url = Fails e \<longrightarrow> checkImageExists fetch url = Fulfilled False)
   \<and> (\<forall>e. checkImageExists fetch url \<noteq> Rejected e)"
  by (cases "fetch url") (simp_all add: checkImageExists_def)

text \<open>A status 200, a status 404 and a failed request.\<close>

theorem C7_witness:
  "checkImageExists network (js ''img/cartaz.jpg'') = Fulfilled True
   \<and> checkImageExists network (js ''img/logo.png'') = Fulfilled False
   \<and> checkImageExists network (js ''img/outro.png'') = Fulfilled False"
  using C7_probe_never_rejects [of network "js ''img/cartaz.jpg''"]
    C7_probe_never_rejects [of network "js ''img/logo.png''"]
    C7_probe_never_rejects [of network "js ''img/outro.png''"]
  by (simp add: network_def ok_def js_def)

section \<open>Properties of the focus listeners\<close>

lemma outline_names:
  "js ''outline-width'' \<noteq> js ''outline-style''" "js ''outline-width'' \<noteq> js ''outline-color''"
  "js ''outline-style'' \<noteq> js ''outline-color''" "js ''outline-offset'' \<noteq> js ''outline-width''"
  "js ''outline-offset'' \<noteq> js ''outline-style''" "js ''outline-offset'' \<noteq> js ''outline-color''"
  by (simp_all add: js_def)

lemma onFocus_twice: "onFocus (onFocus c) = onFocus c"
  by (simp add: onFocus_def setOutline_def setOutlineOffset_def Let_def fun_eq_iff)

lemma onBlur_twice: "onBlur (onBlur c) = onBlur c"
  by (simp add: onBlur_def removeOutline_def)

lemma onFocus_iter: "(onFocus ^^ Suc n) c = onFocus c"
  by (induction n) (simp_all add: onFocus_twice)

lemma onBlur_iter: "(onBlur ^^ Suc n) c = onBlur c"
  by (induction n) (simp_all add: onBlur_twice)

lemma dispatchFocus_once: "0 < focusListeners c \<Longrightarrow> dispatchFocus c = onFocus c"
  using onFocus_iter [of "focusListeners c - 1" c] by (simp add: dispatchFocus_def)

lemma dispatchBlur_once: "0 < blurListeners c \<Longrightarrow> dispatchBlur c = onBlur c"
  using onBlur_iter [of "blurListeners c - 1" c] by (simp add: dispatchBlur_def)

lemma initializeFocusManagement_button:
  assumes "k < length doc" and "isButton (doc ! k)"
  shows "0 < focusListeners (initializeFocusManagement doc ! k)"
    and "0 < blurListeners (initializeFocusManagement doc ! k)"
    and "style (initializeFocusManagement doc ! k) = style (doc ! k)"
  using assms by (simp_all add: initializeFocusManagement_def Let_def)

lemma focus_then_blur:
  assumes "k < length doc" and "isButton (doc ! k)"
  shows "style (dispatchBlur (dispatchFocus (initializeFocusManagement doc ! k))) =
           (style (doc ! k))
             (js ''outline-width'' := None, js ''outline-style'' := None,
              js ''outline-color'' := None, js ''outline-offset'' \<mapsto> js ''2px'')"
proof -
  let ?c = "initializeFocusManagement doc ! k"
  note c = initializeFocusManagement_button [OF assms]
  have "dispatchFocus ?c = onFocus ?c" using c(1) by (rule dispatchFocus_once)
  moreover have "0 < blurListeners (onFocus ?c)" using c(2) by (simp add: onFocus_def)
  then have "dispatchBlur (onFocus ?c) = onBlur (onFocus ?c)" by (rule dispatchBlur_once)
  ultimately have "dispatchBlur (dispatchFocus ?c) = onBlur (onFocus ?c)" by simp
  then show ?thesis
    using c(3) outline_names
    by (simp add: onBlur_def onFocus_def removeOutline_def setOutline_def setOutlineOffset_def
        fun_eq_iff)
qed

section \<open>The claim about the focus outline\<close>

text \<open>
  C9 at a button whose inline style declares only a colour: after a \<^verbatim>\<open>focus\<close> event
  followed by a \<^verbatim>\<open>blur\<close> event the longhands of \<^verbatim>\<open>outline\<close> are removed again and the colour
  is kept, but the \<^verbatim>\<open>blur\<close> listener never resets \<^verbatim>\<open>outlineOffset\<close>: \<^verbatim>\<open>outline-offset\<close>, not
  declared before the focus, is left at \<^verbatim>\<open>2px\<close>, so the inline style is not the one from
  before the focus. (\<open>focus_then_blur\<close> gives the style after focus and blur for every
  matched element.)
\<close>

theorem C9_blur_leaves_outline_offset:
  "isButton plainButton
   \<and> style (initializeFocusManagement [plainButton] ! 0) (js ''outline-offset'') = None
   \<and> style (dispatchBlur (dispatchFocus (initializeFocusManagement [plainButton] ! 0)))
        (js ''outline-offset'') = Some (js ''2px'')
   \<and> style (dispatchBlur (dispatchFocus (initializeFocusManagement [plainButton] ! 0)))
        (js ''outline-width'') = None
   \<and> style (dispatchBlur (dispatchFocus (initializeFocusManagement [plainButton] ! 0)))
        (js ''color'') = Some (js ''#fff'')
   \<and> style (dispatchBlur (dispatchFocus (initializeFocusManagement [plainButton] ! 0)))
       \<noteq> style (initializeFocusManagement [plainButton] ! 0)"
proof -
  let ?before = "style (initializeFocusManagement [plainButton] ! 0)"
  let ?after = "style (dispatchBlur (dispatchFocus (initializeFocusManagement [plainButton] ! 0)))"
  have button: "isButton plainButton" by (simp add: plainButton_def)
  have before: "?before = [js ''color'' \<mapsto> js ''#fff'']"
    by (simp add: initializeFocusManagement_def plainButton_def Let_def)
  have after: "?after =
      [js ''color'' \<mapsto> js ''#fff'']
        (js ''outline-width'' := None, js ''outline-style'' := None,
         js ''outline-color'' := None, js ''outline-offset'' \<mapsto> js ''2px'')"
    using focus_then_blur [of 0 "[plainButton]"] by (simp add: plainButton_def)
  have b: "?before (js ''outline-offset'') = None" by (simp add: before js_def)
  have a: "?after (js ''outline-offset'') = Some (js ''2px'')" by (simp add: after)
  have w: "?after (js ''outline-width'') = None" by (simp add: after js_def)
  have c: "?after (js ''color'') = Some (js ''#fff'')" by (simp add: after js_def)
  from a b have "?after \<noteq> ?before" by (metis option.distinct(1))
  with button a b w c show ?thesis by simp
qed

end
